theory Spec2Isabelle
  imports Complex_Main
begin

section \<open>The rate-limiting gate of \<open>utils/ratelimit_utils.py\<close>\<close>

text \<open>
  The module \<open>utils/ratelimit_utils.py\<close> holds two decorators: the class \<open>RateLimit\<close>,
  a fixed-window call counter, and \<open>sleep_and_retry\<close>, a loop that sleeps through
  rate-limit exceptions. Both are embedded here as state-passing functions.

  Times are Python floats in the source; they are modelled as \<^typ>\<open>real\<close> numbers, so
  rounding is not represented. Counters are Python integers, modelled as \<^typ>\<open>int\<close>.
  The re-entrant lock of \<open>RateLimit\<close> is not represented: the model is sequential, one
  call of the wrapper at a time.
\<close>

subsection \<open>Values, exceptions, the environment\<close>

text \<open>
  A Python call either returns a value, possibly \<open>None\<close>, or raises. The exception
  of \<open>utils/exception.py\<close> carries \<open>time_remaining\<close>; \<open>ValueError\<close> is what
  \<open>time.sleep\<close> raises on a negative argument; \<open>OpError\<close> stands for every other
  exception of the decorated function.
\<close>

datatype 'a pyval = PyNone | Val 'a

datatype 'e exn = RateLimitException real | ValueError | OpError 'e

type_synonym ('e, 'a) outcome = "'e exn + 'a pyval"

text \<open>
  The environment of a run. \<open>readings\<close> is the sequence of values that successive
  calls of \<open>time.monotonic()\<close> return and \<open>reads\<close> counts the calls made so far;
  \<open>sleep_log\<close> records the argument of every call of \<open>time.sleep\<close>, in order;
  \<open>user\<close> is whatever state the decorated function works on.
\<close>

record 'u world =
  readings :: "nat \<Rightarrow> real"
  reads :: nat
  sleep_log :: "real list"
  user :: 'u

definition monotonic :: "'u world \<Rightarrow> real \<times> 'u world" where
  "monotonic w = (readings w (reads w), w\<lparr>reads := Suc (reads w)\<rparr>)"

text \<open>\<open>time.sleep(secs)\<close>: raises \<open>ValueError\<close> when \<open>secs\<close> is negative.\<close>

definition sleep :: "real \<Rightarrow> 'u world \<Rightarrow> ('e exn + unit) \<times> 'u world" where
  "sleep secs w =
     (if secs < 0 then Inl ValueError else Inr (), w\<lparr>sleep_log := sleep_log w @ [secs]\<rparr>)"

text \<open>
  The decorated function takes the user state and gives an outcome and the new user
  state (the source passes \<open>*args, **kargs\<close> through unchanged; they are part of the
  closure here).
\<close>

type_synonym ('u, 'e, 'a) operation = "'u \<Rightarrow> ('e, 'a) outcome \<times> 'u"

subsection \<open>\<open>class RateLimit\<close>\<close>

record 'u RateLimit =
  calls :: int
  interval :: real
  clock :: "'u world \<Rightarrow> real \<times> 'u world"
  raise_on_limit :: bool
  last_reset :: real
  num_calls :: int

text \<open>\<open>RateLimit.__init__(self, calls, interval, raise_on_limit=True)\<close>\<close>

definition RateLimit_init :: "int \<Rightarrow> real \<Rightarrow> bool \<Rightarrow> 'u world \<Rightarrow> 'u RateLimit \<times> 'u world" where
  "RateLimit_init calls' interval' raise_on_limit' w =
     (let (t, w') = monotonic w
      in (\<lparr>calls = calls', interval = interval', clock = monotonic,
           raise_on_limit = raise_on_limit', last_reset = t, num_calls = 0\<rparr>, w'))"

text \<open>
  The block \<open>with self.lock: ...\<close> of the wrapper has three exits: it raises
  \<open>RateLimitException(period_remaining)\<close>, it returns \<open>None\<close>, or it falls through to
  the call of the decorated function. The block has no name in the source; it is
  called \<open>admit\<close> here. It reads the clock once, and a second time when it resets
  the window.
\<close>

datatype verdict = Proceed | Reject real | Skip

definition admit :: "'u RateLimit \<Rightarrow> 'u world \<Rightarrow> verdict \<times> 'u RateLimit \<times> 'u world" where
  "admit self w =
     (let (now, w1) = clock self w;
          elapsed = now - last_reset self;
          period_remaining = interval self - elapsed;
          (self1, w2) =
            (if period_remaining \<le> 0
             then (let (t, w2) = clock self w1
                   in (self\<lparr>num_calls := 0, last_reset := t\<rparr>, w2))
             else (self, w1));
          self2 = self1\<lparr>num_calls := num_calls self1 + 1\<rparr>
      in if num_calls self2 > calls self2
         then (if raise_on_limit self2 then Reject period_remaining else Skip, self2, w2)
         else (Proceed, self2, w2))"

text \<open>The function \<open>wrapper\<close> that \<open>RateLimit.__call__(self, func)\<close> returns.\<close>

definition RateLimit_wrapper ::
  "('u, 'e, 'a) operation \<Rightarrow> 'u RateLimit \<Rightarrow> 'u world
     \<Rightarrow> ('e, 'a) outcome \<times> 'u RateLimit \<times> 'u world" where
  "RateLimit_wrapper func self w =
     (case admit self w of
        (Reject period_remaining, self', w') \<Rightarrow>
          (Inl (RateLimitException period_remaining), self', w')
      | (Skip, self', w') \<Rightarrow> (Inr PyNone, self', w')
      | (Proceed, self', w') \<Rightarrow>
          (let (r, u') = func (user w') in (r, self', w'\<lparr>user := u'\<rparr>)))"

text \<open>The limiter and the environment after \<open>n\<close> successive calls of the wrapper.\<close>

fun after_calls ::
  "nat \<Rightarrow> ('u, 'e, 'a) operation \<Rightarrow> 'u RateLimit \<Rightarrow> 'u world \<Rightarrow> 'u RateLimit \<times> 'u world" where
  "after_calls 0 func self w = (self, w)"
| "after_calls (Suc n) func self w =
     (case after_calls n func self w of
        (self', w') \<Rightarrow> snd (RateLimit_wrapper func self' w'))"

subsection \<open>\<open>sleep_and_retry\<close>\<close>

text \<open>
  The wrapper that \<open>sleep_and_retry(func)\<close> returns: \<open>while True\<close> around a
  \<open>try\<close> that returns what \<open>func\<close> returns and catches \<open>RateLimitException\<close> only.
  The handler logs a warning (not represented) and calls
  \<open>time.sleep(exception.time_remaining)\<close>; an exception of \<open>time.sleep\<close> is raised
  inside the handler and leaves the loop. The loop need not end: the result
  \<open>None\<close> of the model stands for a run that never returns.
\<close>

partial_function (option) sleep_and_retry ::
  "('l \<Rightarrow> 'u world \<Rightarrow> ('e, 'a) outcome \<times> 'l \<times> 'u world) \<Rightarrow> 'l \<Rightarrow> 'u world
     \<Rightarrow> (('e, 'a) outcome \<times> 'l \<times> 'u world) option" where
  "sleep_and_retry func l w =
     (case func l w of
        (Inl (RateLimitException time_remaining), l', w') \<Rightarrow>
          (case sleep time_remaining w' of
             (Inl e, w'') \<Rightarrow> Some (Inl e, l', w'')
           | (Inr _, w'') \<Rightarrow> sleep_and_retry func l' w'')
      | (r, l', w') \<Rightarrow> Some (r, l', w'))"



section \<open>One call of the wrapper\<close>

lemma admit_in_window:
  assumes "clock self = monotonic"
    and "readings w (reads w) - last_reset self < interval self"
  shows "admit self w =
     (if calls self < num_calls self + 1
      then (if raise_on_limit self
            then Reject (interval self - (readings w (reads w) - last_reset self))
            else Skip)
      else Proceed,
      self\<lparr>num_calls := num_calls self + 1\<rparr>, w\<lparr>reads := Suc (reads w)\<rparr>)"
  using assms by (simp add: admit_def monotonic_def)

lemma admit_elapsed:
  assumes "clock self = monotonic"
    and "interval self \<le> readings w (reads w) - last_reset self"
  shows "admit self w =
     (if calls self < 1
      then (if raise_on_limit self
            then Reject (interval self - (readings w (reads w) - last_reset self))
            else Skip)
      else Proceed,
      self\<lparr>num_calls := 1, last_reset := readings w (Suc (reads w))\<rparr>,
      w\<lparr>reads := Suc (Suc (reads w))\<rparr>)"
  using assms by (simp add: admit_def monotonic_def)

lemma admit_config:
  "calls (fst (snd (admit self w))) = calls self \<and>
   interval (fst (snd (admit self w))) = interval self \<and>
   raise_on_limit (fst (snd (admit self w))) = raise_on_limit self \<and>
   clock (fst (snd (admit self w))) = clock self"
  by (auto simp add: admit_def Let_def split: prod.splits)

lemma RateLimit_wrapper_in_window:
  assumes "clock self = monotonic"
    and "readings w (reads w) - last_reset self < interval self"
  shows "RateLimit_wrapper func self w =
     (if calls self < num_calls self + 1
      then (if raise_on_limit self
            then Inl (RateLimitException (interval self - (readings w (reads w) - last_reset self)))
            else Inr PyNone,
            self\<lparr>num_calls := num_calls self + 1\<rparr>, w\<lparr>reads := Suc (reads w)\<rparr>)
      else (fst (func (user w)), self\<lparr>num_calls := num_calls self + 1\<rparr>,
            w\<lparr>reads := Suc (reads w), user := snd (func (user w))\<rparr>))"
  using assms by (simp add: RateLimit_wrapper_def admit_in_window split: prod.splits)

lemma RateLimit_wrapper_elapsed:
  assumes "clock self = monotonic"
    and "interval self \<le> readings w (reads w) - last_reset self"
  shows "RateLimit_wrapper func self w =
     (if calls self < 1
      then (if raise_on_limit self
            then Inl (RateLimitException (interval self - (readings w (reads w) - last_reset self)))
            else Inr PyNone,
            self\<lparr>num_calls := 1, last_reset := readings w (Suc (reads w))\<rparr>,
            w\<lparr>reads := Suc (Suc (reads w))\<rparr>)
      else (fst (func (user w)),
            self\<lparr>num_calls := 1, last_reset := readings w (Suc (reads w))\<rparr>,
            w\<lparr>reads := Suc (Suc (reads w)), user := snd (func (user w))\<rparr>))"
  using assms by (simp add: RateLimit_wrapper_def admit_elapsed split: prod.splits)

lemma RateLimit_wrapper_limiter:
  "fst (snd (RateLimit_wrapper func self w)) = fst (snd (admit self w))"
  by (simp add: RateLimit_wrapper_def split: prod.splits verdict.splits)

lemma admit_updates:
  "\<exists>t n. fst (snd (admit self w)) = self\<lparr>last_reset := t, num_calls := n\<rparr>"
proof -
  obtain now w1 where c1: "clock self w = (now, w1)" by (cases "clock self w")
  obtain t w2 where c2: "clock self w1 = (t, w2)" by (cases "clock self w1")
  show ?thesis
  proof (cases "interval self - (now - last_reset self) \<le> 0")
    case True
    then have "fst (snd (admit self w)) = self\<lparr>last_reset := t, num_calls := 1\<rparr>"
      using c1 c2 by (simp add: admit_def Let_def)
    then show ?thesis by blast
  next
    case False
    then have "fst (snd (admit self w)) =
        self\<lparr>last_reset := last_reset self, num_calls := num_calls self + 1\<rparr>"
      using c1 by (simp add: admit_def Let_def)
    then show ?thesis by blast
  qed
qed

lemma after_calls_in_window:
  assumes "clock self = monotonic"
    and "\<forall>j<k. readings w (reads w + j) - last_reset self < interval self"
  shows "fst (after_calls k func self w) = self\<lparr>num_calls := num_calls self + int k\<rparr> \<and>
         readings (snd (after_calls k func self w)) = readings w \<and>
         reads (snd (after_calls k func self w)) = reads w + k \<and>
         sleep_log (snd (after_calls k func self w)) = sleep_log w"
  using assms(2)
proof (induction k)
  case 0
  then show ?case by simp
next
  case (Suc k)
  obtain self' w' where s: "after_calls k func self w = (self', w')"
    by (cases "after_calls k func self w")
  from Suc have ih: "self' = self\<lparr>num_calls := num_calls self + int k\<rparr>"
    "readings w' = readings w" "reads w' = reads w + k" "sleep_log w' = sleep_log w"
    using s by auto
  from Suc.prems have "readings w (reads w + k) - last_reset self < interval self" by simp
  then have inw: "readings w' (reads w') - last_reset self' < interval self'"
    using ih by simp
  have c: "clock self' = monotonic" using ih assms(1) by simp
  note step = RateLimit_wrapper_in_window [OF c inw, of func]
  have "after_calls (Suc k) func self w = snd (RateLimit_wrapper func self' w')"
    using s by simp
  then show ?case
    unfolding step using ih by simp
qed

lemma RateLimit_init_fresh:
  assumes "RateLimit_init m d r w0 = (self, w)"
  shows "clock self = monotonic" "num_calls self = 0" "calls self = m" "interval self = d"
    "raise_on_limit self = r"
  using assms by (auto simp add: RateLimit_init_def monotonic_def)





lemma exhausted_skip:
  assumes "clock self = monotonic" and "\<not> raise_on_limit self"
    and "admit self w = (v, self', w')"
    and "calls self < num_calls self'"
  shows "v = Skip \<and> RateLimit_wrapper func self w = (Inr PyNone, self', w') \<and>
         user w' = user w \<and> sleep_log w' = sleep_log w"
proof (cases "readings w (reads w) - last_reset self < interval self")
  case True
  note a = admit_in_window [OF assms(1) True]
  from assms(3,4) have "calls self < num_calls self + 1" unfolding a by auto
  then show ?thesis
    using assms(2,3) unfolding a RateLimit_wrapper_def by auto
next
  case False
  then have el: "interval self \<le> readings w (reads w) - last_reset self" by simp
  note a = admit_elapsed [OF assms(1) el]
  from assms(3,4) have "calls self < 1" unfolding a by auto
  then show ?thesis
    using assms(2,3) unfolding a RateLimit_wrapper_def by auto
qed

lemma admit_num_calls_pos:
  assumes "0 \<le> num_calls self"
  shows "1 \<le> num_calls (fst (snd (admit self w)))"
  using assms by (auto simp add: admit_def Let_def split: prod.splits)

lemma after_calls_config:
  "calls (fst (after_calls k func self w)) = calls self \<and>
   interval (fst (after_calls k func self w)) = interval self \<and>
   raise_on_limit (fst (after_calls k func self w)) = raise_on_limit self \<and>
   clock (fst (after_calls k func self w)) = clock self"
proof (induction k)
  case 0
  then show ?case by simp
next
  case (Suc k)
  obtain s e where s: "after_calls k func self w = (s, e)"
    by (cases "after_calls k func self w")
  have "fst (after_calls (Suc k) func self w) = fst (snd (admit s e))"
    using s RateLimit_wrapper_limiter [of func s e] by simp
  with Suc s admit_config [of s e] show ?case by simp
qed

lemma after_calls_num_calls_nonneg:
  assumes "0 \<le> num_calls self"
  shows "0 \<le> num_calls (fst (after_calls k func self w))"
proof (induction k)
  case 0
  with assms show ?case by simp
next
  case (Suc k)
  obtain s e where s: "after_calls k func self w = (s, e)"
    by (cases "after_calls k func self w")
  have "fst (after_calls (Suc k) func self w) = fst (snd (admit s e))"
    using s RateLimit_wrapper_limiter [of func s e] by simp
  moreover from Suc s have "0 \<le> num_calls s" by simp
  ultimately show ?case using admit_num_calls_pos [of s e] by simp
qed

section \<open>The retry loop\<close>

lemma sleep_and_retry_return:
  assumes "func l w = (r, l1, w1)" and "\<forall>t. r \<noteq> Inl (RateLimitException t)"
  shows "sleep_and_retry func l w = Some (r, l1, w1)"
proof (cases r)
  case (Inl e)
  with assms show ?thesis
    by (cases e) (simp_all add: sleep_and_retry.simps [of func l w])
next
  case (Inr v)
  with assms show ?thesis
    by (simp add: sleep_and_retry.simps [of func l w])
qed

lemma sleep_and_retry_reject:
  assumes "func l w = (Inl (RateLimitException t), l1, w1)"
  shows "sleep_and_retry func l w =
     (if t < 0 then Some (Inl ValueError, l1, w1\<lparr>sleep_log := sleep_log w1 @ [t]\<rparr>)
      else sleep_and_retry func l1 (w1\<lparr>sleep_log := sleep_log w1 @ [t]\<rparr>))"
  using assms by (simp add: sleep_and_retry.simps [of func l w] sleep_def)

lemma sleep_and_retry_no_RateLimitException:
  assumes "sleep_and_retry func l w = Some y"
  shows "fst y \<noteq> Inl (RateLimitException t)"
  using assms
proof (induction func l w y rule: sleep_and_retry.raw_induct [rotated 1, consumes 1])
  case (1 loop func l w y)
  obtain r1 l1 w1 where f: "func l w = (r1, l1, w1)" by (cases "func l w") auto
  show ?case
  proof (cases "\<exists>d. r1 = Inl (RateLimitException d)")
    case True
    then obtain d where d: "r1 = Inl (RateLimitException d)" by blast
    show ?thesis
    proof (cases "d < 0")
      case True
      with 1(2) f d show ?thesis by (auto simp add: sleep_def)
    next
      case False
      with 1(2) f d have "loop func l1 (w1\<lparr>sleep_log := sleep_log w1 @ [d]\<rparr>) = Some y"
        by (simp add: sleep_def)
      then show ?thesis by (rule 1(1))
    qed
  next
    case False
    with 1(2) have "y = (r1, l1, w1)"
      unfolding f by (cases r1) (auto split: exn.splits)
    with False show ?thesis by auto
  qed
qed









section \<open>The claims\<close>

text \<open>
  C8. Every run of the locked block of the wrapper, whether it admits, rejects or
  skips, changes at most the fields \<open>last_reset\<close> and \<open>num_calls\<close> of the limiter:
  \<open>calls\<close>, \<open>interval\<close>, \<open>raise_on_limit\<close> and the \<open>clock\<close> reference are the
  same afterwards, and the rest of the wrapper does not touch the limiter at all.
\<close>

theorem admit_frame:
  "(\<exists>t n. fst (snd (admit self w)) = self\<lparr>last_reset := t, num_calls := n\<rparr>) \<and>
   calls (fst (snd (admit self w))) = calls self \<and>
   interval (fst (snd (admit self w))) = interval self \<and>
   raise_on_limit (fst (snd (admit self w))) = raise_on_limit self \<and>
   clock (fst (snd (admit self w))) = clock self \<and>
   fst (snd (RateLimit_wrapper func self w)) = fst (snd (admit self w))"
  using admit_updates [of self w] admit_config [of self w]
    RateLimit_wrapper_limiter [of func self w] by simp

text \<open>
  C1. A limiter constructed with \<open>calls = m \<ge> 1\<close> and \<open>interval = d > 0\<close> is
  called repeatedly, every call reading the clock before the window has elapsed.
  The call made after \<open>k\<close> earlier ones is admitted when \<open>k < m\<close>: the decorated
  function runs on the user state and its outcome is the outcome of the call. When
  \<open>m \<le> k\<close> the call is rejected: the wrapper raises \<open>RateLimitException\<close> with
  the time left in the window (or, for a limiter constructed with
  \<open>raise_on_limit = False\<close>, returns \<open>None\<close>), and the decorated function does not
  run. So calls \<open>1\<close> to \<open>m\<close> are admitted and call \<open>m + 1\<close> is the first one
  rejected.
\<close>

theorem first_calls_admitted:
  assumes "1 \<le> m" and "0 < d"
    and "RateLimit_init m d r w0 = (self, w)"
    and "\<forall>j\<le>k. readings w (reads w + j) - last_reset self < d"
    and "after_calls k func self w = (self_k, w_k)"
  shows "(int k < m \<longrightarrow>
            fst (admit self_k w_k) = Proceed \<and>
            RateLimit_wrapper func self_k w_k =
              (fst (func (user w_k)), self_k\<lparr>num_calls := int k + 1\<rparr>,
               w_k\<lparr>reads := Suc (reads w_k), user := snd (func (user w_k))\<rparr>)) \<and>
         (m \<le> int k \<longrightarrow>
            fst (admit self_k w_k) =
              (if r then Reject (d - (readings w_k (reads w_k) - last_reset self_k))
               else Skip) \<and>
            RateLimit_wrapper func self_k w_k =
              (if r
               then Inl (RateLimitException
                      (d - (readings w_k (reads w_k) - last_reset self_k)))
               else Inr PyNone,
               self_k\<lparr>num_calls := int k + 1\<rparr>, w_k\<lparr>reads := Suc (reads w_k)\<rparr>) \<and>
            fst (admit self_k w_k) \<noteq> Proceed \<and>
            (\<forall>v. fst (RateLimit_wrapper func self_k w_k) \<noteq> Inr (Val v)) \<and>
            user (snd (snd (RateLimit_wrapper func self_k w_k))) = user w_k)"
proof -
  note fresh = RateLimit_init_fresh [OF assms(3)]
  have win: "\<forall>j<k. readings w (reads w + j) - last_reset self < interval self"
    using assms(4) fresh by simp
  note st = after_calls_in_window [OF fresh(1) win, of func]
  have sk: "self_k = self\<lparr>num_calls := int k\<rparr>" "readings w_k = readings w"
    "reads w_k = reads w + k"
    using st assms(5) fresh by simp_all
  have c: "clock self_k = monotonic" using sk fresh by simp
  have inw: "readings w_k (reads w_k) - last_reset self_k < interval self_k"
    using assms(4) sk fresh by simp
  show ?thesis
    unfolding RateLimit_wrapper_in_window [OF c inw] admit_in_window [OF c inw]
    using sk fresh by simp
qed

theorem first_calls_admitted_witness:
  "RateLimit_init 2 10 True \<lparr>readings = real, reads = 0, sleep_log = [], user = 0::int\<rparr> =
     (\<lparr>calls = 2, interval = 10, clock = monotonic, raise_on_limit = True,
       last_reset = 0, num_calls = 0\<rparr>,
      \<lparr>readings = real, reads = 1, sleep_log = [], user = 0\<rparr>) \<and>
   real 1 - 0 < 10 \<and> real 2 - 0 < 10 \<and> real 3 - 0 < 10 \<and>
   RateLimit_wrapper (\<lambda>u. (Inr (Val u) :: (unit, int) outcome, u + 1))
     \<lparr>calls = 2, interval = 10, clock = monotonic, raise_on_limit = True,
      last_reset = 0, num_calls = 1\<rparr>
     \<lparr>readings = real, reads = 2, sleep_log = [], user = 1::int\<rparr> =
     (Inr (Val 1),
      \<lparr>calls = 2, interval = 10, clock = monotonic, raise_on_limit = True,
       last_reset = 0, num_calls = 2\<rparr>,
      \<lparr>readings = real, reads = 3, sleep_log = [], user = 2\<rparr>) \<and>
   RateLimit_wrapper (\<lambda>u. (Inr (Val u) :: (unit, int) outcome, u + 1))
     \<lparr>calls = 2, interval = 10, clock = monotonic, raise_on_limit = True,
      last_reset = 0, num_calls = 2\<rparr>
     \<lparr>readings = real, reads = 3, sleep_log = [], user = 2::int\<rparr> =
     (Inl (RateLimitException 7),
      \<lparr>calls = 2, interval = 10, clock = monotonic, raise_on_limit = True,
       last_reset = 0, num_calls = 3\<rparr>,
      \<lparr>readings = real, reads = 4, sleep_log = [], user = 2\<rparr>) \<and>
   fst (admit
     \<lparr>calls = 2, interval = 10, clock = monotonic, raise_on_limit = True,
      last_reset = 0, num_calls = 2\<rparr>
     \<lparr>readings = real, reads = 3, sleep_log = [], user = 2::int\<rparr>) = Reject 7"
proof -
  let ?f = "\<lambda>u::int. (Inr (Val u) :: (unit, int) outcome, u + 1)"
  let ?e0 = "\<lparr>readings = real, reads = 0, sleep_log = [], user = 0::int\<rparr>"
  let ?self = "\<lparr>calls = 2, interval = 10, clock = monotonic, raise_on_limit = True,
       last_reset = 0, num_calls = 0\<rparr> :: int RateLimit"
  let ?w = "\<lparr>readings = real, reads = 1, sleep_log = [], user = 0::int\<rparr>"
  have i: "RateLimit_init 2 10 True ?e0 = (?self, ?w)"
    by (simp add: RateLimit_init_def monotonic_def)
  have h1: "\<forall>j\<le>1. readings ?w (reads ?w + j) - last_reset ?self < 10" by simp
  have h2: "\<forall>j\<le>2. readings ?w (reads ?w + j) - last_reset ?self < 10" by simp
  have a1: "after_calls 1 ?f ?self ?w =
      (?self\<lparr>num_calls := 1\<rparr>, ?w\<lparr>reads := 2, user := 1\<rparr>)"
    by (simp add: RateLimit_wrapper_def admit_def monotonic_def)
  have a2: "after_calls 2 ?f ?self ?w =
      (?self\<lparr>num_calls := 2\<rparr>, ?w\<lparr>reads := 3, user := 2\<rparr>)"
    by (simp add: numeral_2_eq_2 RateLimit_wrapper_def admit_def monotonic_def)
  have m: "(1::int) \<le> 2" and d: "(0::real) < 10" by simp_all
  show ?thesis
    using i first_calls_admitted [OF m d i h1 a1] first_calls_admitted [OF m d i h2 a2]
    by simp
qed

text \<open>
  C3. Calls are made while the window has not elapsed, starting from a limiter that
  has counted \<open>num_calls self\<close> calls in this window and raises on the limit. The
  call made after \<open>k\<close> further ones is call number \<open>K = num_calls self + k + 1\<close> of
  the window. When \<open>K > calls\<close> it raises \<open>RateLimitException\<close> whose
  \<open>time_remaining\<close> is \<open>interval - (now - last_reset)\<close>, \<open>now\<close> being the clock
  reading that this call takes first.
\<close>

theorem rejection_time_remaining:
  assumes "clock self = monotonic" and "raise_on_limit self"
    and "\<forall>j\<le>k. readings w (reads w + j) - last_reset self < interval self"
    and "calls self < num_calls self + int k + 1"
    and "after_calls k func self w = (self_k, w_k)"
  shows "RateLimit_wrapper func self_k w_k =
           (Inl (RateLimitException
                  (interval self_k - (fst (clock self_k w_k) - last_reset self_k))),
            self_k\<lparr>num_calls := num_calls self_k + 1\<rparr>, snd (clock self_k w_k)) \<and>
         fst (clock self_k w_k) = readings w (reads w + k) \<and>
         interval self_k = interval self \<and> last_reset self_k = last_reset self"
proof -
  have win: "\<forall>j<k. readings w (reads w + j) - last_reset self < interval self"
    using assms(3) by simp
  note st = after_calls_in_window [OF assms(1) win, of func]
  have sk: "self_k = self\<lparr>num_calls := num_calls self + int k\<rparr>" "readings w_k = readings w"
    "reads w_k = reads w + k"
    using st assms(5) by simp_all
  have c: "clock self_k = monotonic" using sk assms(1) by simp
  have inw: "readings w_k (reads w_k) - last_reset self_k < interval self_k"
    using assms(3) sk by simp
  show ?thesis
    unfolding RateLimit_wrapper_in_window [OF c inw]
    using sk assms(1,2,4) by (simp add: monotonic_def)
qed

theorem rejection_time_remaining_witness:
  "after_calls 2 (\<lambda>u. (Inr (Val u) :: (unit, int) outcome, u + 1))
     \<lparr>calls = 2, interval = 10, clock = monotonic, raise_on_limit = True,
      last_reset = 0, num_calls = 0\<rparr>
     \<lparr>readings = real, reads = 0, sleep_log = [], user = 0::int\<rparr> =
     (\<lparr>calls = 2, interval = 10, clock = monotonic, raise_on_limit = True,
       last_reset = 0, num_calls = 2\<rparr>,
      \<lparr>readings = real, reads = 2, sleep_log = [], user = 2\<rparr>) \<and>
   RateLimit_wrapper (\<lambda>u. (Inr (Val u) :: (unit, int) outcome, u + 1))
     \<lparr>calls = 2, interval = 10, clock = monotonic, raise_on_limit = True,
      last_reset = 0, num_calls = 2\<rparr>
     \<lparr>readings = real, reads = 2, sleep_log = [], user = 2::int\<rparr> =
     (Inl (RateLimitException 8),
      \<lparr>calls = 2, interval = 10, clock = monotonic, raise_on_limit = True,
       last_reset = 0, num_calls = 3\<rparr>,
      \<lparr>readings = real, reads = 3, sleep_log = [], user = 2\<rparr>)"
proof -
  let ?f = "\<lambda>u::int. (Inr (Val u) :: (unit, int) outcome, u + 1)"
  let ?self = "\<lparr>calls = 2, interval = 10, clock = monotonic, raise_on_limit = True,
       last_reset = 0, num_calls = 0\<rparr> :: int RateLimit"
  let ?e = "\<lparr>readings = real, reads = 0, sleep_log = [], user = 0::int\<rparr>"
  have c: "clock ?self = monotonic" and r: "raise_on_limit ?self" by simp_all
  have h: "\<forall>j\<le>2. readings ?e (reads ?e + j) - last_reset ?self < interval ?self" by simp
  have n: "calls ?self < num_calls ?self + int 2 + 1" by simp
  have a: "after_calls 2 ?f ?self ?e =
      (?self\<lparr>num_calls := 2\<rparr>, ?e\<lparr>reads := 2, user := 2\<rparr>)"
    by (simp add: numeral_2_eq_2 RateLimit_wrapper_def admit_def monotonic_def)
  show ?thesis
    using a rejection_time_remaining [OF c r h n a] by (simp add: monotonic_def)
qed

text \<open>
  C4. For a limiter with \<open>calls \<ge> 1\<close>: a call that reads the clock before the
  window has elapsed leaves \<open>num_calls\<close> one higher, whether it is admitted or not, so
  \<open>k\<close> such calls in a row add exactly \<open>k\<close>; a call that reads the clock once the
  window has elapsed is admitted, runs the decorated function and leaves
  \<open>num_calls = 1\<close>, whatever \<open>num_calls\<close> was before.
\<close>

theorem num_calls_counts_every_call:
  assumes "clock self = monotonic" and "1 \<le> calls self"
  shows "(readings w (reads w) - last_reset self < interval self \<longrightarrow>
            num_calls (fst (snd (RateLimit_wrapper func self w))) = num_calls self + 1) \<and>
         ((\<forall>j<k. readings w (reads w + j) - last_reset self < interval self) \<longrightarrow>
            num_calls (fst (after_calls k func self w)) = num_calls self + int k) \<and>
         (interval self \<le> readings w (reads w) - last_reset self \<longrightarrow>
            fst (admit self w) = Proceed \<and>
            num_calls (fst (snd (RateLimit_wrapper func self w))) = 1 \<and>
            fst (RateLimit_wrapper func self w) = fst (func (user w)) \<and>
            user (snd (snd (RateLimit_wrapper func self w))) = snd (func (user w)))"
proof (intro conjI impI)
  assume inw: "readings w (reads w) - last_reset self < interval self"
  show "num_calls (fst (snd (RateLimit_wrapper func self w))) = num_calls self + 1"
    unfolding RateLimit_wrapper_in_window [OF assms(1) inw] by simp
next
  assume win: "\<forall>j<k. readings w (reads w + j) - last_reset self < interval self"
  show "num_calls (fst (after_calls k func self w)) = num_calls self + int k"
    using after_calls_in_window [OF assms(1) win, of func] by simp
next
  assume el: "interval self \<le> readings w (reads w) - last_reset self"
  note a = admit_elapsed [OF assms(1) el]
  note r = RateLimit_wrapper_elapsed [OF assms(1) el, of func]
  show "fst (admit self w) = Proceed" unfolding a using assms(2) by simp
  show "num_calls (fst (snd (RateLimit_wrapper func self w))) = 1"
    unfolding r using assms(2) by simp
  show "fst (RateLimit_wrapper func self w) = fst (func (user w))"
    unfolding r using assms(2) by simp
  show "user (snd (snd (RateLimit_wrapper func self w))) = snd (func (user w))"
    unfolding r using assms(2) by simp
qed

theorem num_calls_counts_every_call_witness:
  "num_calls (fst (after_calls 3 (\<lambda>u. (Inr (Val u) :: (unit, int) outcome, u + 1))
     \<lparr>calls = 1, interval = 10, clock = monotonic, raise_on_limit = True,
      last_reset = 0, num_calls = 0\<rparr>
     \<lparr>readings = real, reads = 0, sleep_log = [], user = 0::int\<rparr>)) = 3 \<and>
   RateLimit_wrapper (\<lambda>u. (Inr (Val u) :: (unit, int) outcome, u + 1))
     \<lparr>calls = 1, interval = 10, clock = monotonic, raise_on_limit = True,
      last_reset = 0, num_calls = 3\<rparr>
     \<lparr>readings = (\<lambda>n. real n + 8), reads = 3, sleep_log = [8], user = 1::int\<rparr> =
     (Inr (Val 1),
      \<lparr>calls = 1, interval = 10, clock = monotonic, raise_on_limit = True,
       last_reset = 12, num_calls = 1\<rparr>,
      \<lparr>readings = (\<lambda>n. real n + 8), reads = 5, sleep_log = [8], user = 2\<rparr>)"
proof -
  let ?f = "\<lambda>u::int. (Inr (Val u) :: (unit, int) outcome, u + 1)"
  let ?self = "\<lparr>calls = 1, interval = 10, clock = monotonic, raise_on_limit = True,
       last_reset = 0, num_calls = 0\<rparr> :: int RateLimit"
  let ?e = "\<lparr>readings = real, reads = 0, sleep_log = [], user = 0::int\<rparr>"
  let ?self3 = "\<lparr>calls = 1, interval = 10, clock = monotonic, raise_on_limit = True,
       last_reset = 0, num_calls = 3\<rparr> :: int RateLimit"
  let ?e3 = "\<lparr>readings = (\<lambda>n. real n + 8), reads = 3, sleep_log = [8], user = 1::int\<rparr>"
  have c: "clock ?self = monotonic" and m: "1 \<le> calls ?self" by simp_all
  have c3: "clock ?self3 = monotonic" and m3: "1 \<le> calls ?self3" by simp_all
  have h: "\<forall>j<3. readings ?e (reads ?e + j) - last_reset ?self < interval ?self" by simp
  have el: "interval ?self3 \<le> readings ?e3 (reads ?e3) - last_reset ?self3" by simp
  have w: "RateLimit_wrapper ?f ?self3 ?e3 =
      (fst (RateLimit_wrapper ?f ?self3 ?e3),
       \<lparr>calls = 1, interval = 10, clock = monotonic, raise_on_limit = True,
        last_reset = 12, num_calls = num_calls (fst (snd (RateLimit_wrapper ?f ?self3 ?e3)))\<rparr>,
       \<lparr>readings = (\<lambda>n. real n + 8), reads = 5, sleep_log = [8],
        user = user (snd (snd (RateLimit_wrapper ?f ?self3 ?e3)))\<rparr>)"
    by (simp add: RateLimit_wrapper_def admit_def monotonic_def eval_nat_numeral)
  show ?thesis
    using num_calls_counts_every_call [OF c m, where w = ?e and k = 3 and func = ?f]
      num_calls_counts_every_call [OF c3 m3, where w = ?e3 and k = 0 and func = ?f] h el w
    by simp
qed

text \<open>
  C6. With \<open>raise_on_limit = False\<close>, a call whose count exceeds \<open>calls\<close> leaves the
  locked block by the bare \<open>return\<close>: the wrapper returns \<open>None\<close> and raises
  nothing, the decorated function is not run (the user state is untouched), and
  nothing is slept or retried.
\<close>

theorem raise_on_limit_False_returns_None:
  assumes "clock self = monotonic" and "\<not> raise_on_limit self"
    and "admit self w = (v, self', w')"
    and "calls self < num_calls self'"
  shows "v = Skip \<and> RateLimit_wrapper func self w = (Inr PyNone, self', w') \<and>
         user w' = user w \<and> sleep_log w' = sleep_log w"
  by (rule exhausted_skip [OF assms])

theorem raise_on_limit_False_returns_None_witness:
  "admit
     \<lparr>calls = 1, interval = 10, clock = monotonic, raise_on_limit = False,
      last_reset = 0, num_calls = 1\<rparr>
     \<lparr>readings = real, reads = 1, sleep_log = [], user = 1::int\<rparr> =
     (Skip,
      \<lparr>calls = 1, interval = 10, clock = monotonic, raise_on_limit = False,
       last_reset = 0, num_calls = 2\<rparr>,
      \<lparr>readings = real, reads = 2, sleep_log = [], user = 1\<rparr>) \<and>
   RateLimit_wrapper (\<lambda>u. (Inr (Val u) :: (unit, int) outcome, u + 1))
     \<lparr>calls = 1, interval = 10, clock = monotonic, raise_on_limit = False,
      last_reset = 0, num_calls = 1\<rparr>
     \<lparr>readings = real, reads = 1, sleep_log = [], user = 1::int\<rparr> =
     (Inr PyNone,
      \<lparr>calls = 1, interval = 10, clock = monotonic, raise_on_limit = False,
       last_reset = 0, num_calls = 2\<rparr>,
      \<lparr>readings = real, reads = 2, sleep_log = [], user = 1\<rparr>)"
proof -
  let ?f = "\<lambda>u::int. (Inr (Val u) :: (unit, int) outcome, u + 1)"
  let ?self = "\<lparr>calls = 1, interval = 10, clock = monotonic, raise_on_limit = False,
       last_reset = 0, num_calls = 1\<rparr> :: int RateLimit"
  let ?e = "\<lparr>readings = real, reads = 1, sleep_log = [], user = 1::int\<rparr>"
  let ?self' = "?self\<lparr>num_calls := 2\<rparr>"
  let ?e' = "?e\<lparr>reads := 2\<rparr>"
  have c: "clock ?self = monotonic" and r: "\<not> raise_on_limit ?self" by simp_all
  have a: "admit ?self ?e = (Skip, ?self', ?e')"
    by (simp add: admit_def monotonic_def)
  have n: "calls ?self < num_calls ?self'" by simp
  show ?thesis
    using a raise_on_limit_False_returns_None [OF c r a n, of ?f] by simp
qed

text \<open>
  C10. The same limiter under \<open>sleep_and_retry\<close>: when the count exceeds \<open>calls\<close>
  the first turn of the loop already returns \<open>None\<close>. No exception reaches the
  handler, so nothing is slept, nothing is retried and the decorated function is not
  run.
\<close>

theorem sleep_and_retry_returns_None:
  assumes "clock self = monotonic" and "\<not> raise_on_limit self"
    and "admit self w = (v, self', w')"
    and "calls self < num_calls self'"
  shows "sleep_and_retry (RateLimit_wrapper func) self w = Some (Inr PyNone, self', w') \<and>
         sleep_log w' = sleep_log w \<and> user w' = user w"
proof -
  note s = exhausted_skip [OF assms, of func]
  from s have "RateLimit_wrapper func self w = (Inr PyNone, self', w')" by simp
  then have "sleep_and_retry (RateLimit_wrapper func) self w = Some (Inr PyNone, self', w')"
    by (rule sleep_and_retry_return) simp
  with s show ?thesis by simp
qed

theorem sleep_and_retry_returns_None_witness:
  "sleep_and_retry (RateLimit_wrapper (\<lambda>u. (Inr (Val u) :: (unit, int) outcome, u + 1)))
     \<lparr>calls = 1, interval = 10, clock = monotonic, raise_on_limit = False,
      last_reset = 0, num_calls = 1\<rparr>
     \<lparr>readings = real, reads = 1, sleep_log = [], user = 1::int\<rparr> =
     Some (Inr PyNone,
      \<lparr>calls = 1, interval = 10, clock = monotonic, raise_on_limit = False,
       last_reset = 0, num_calls = 2\<rparr>,
      \<lparr>readings = real, reads = 2, sleep_log = [], user = 1\<rparr>)"
proof -
  let ?f = "\<lambda>u::int. (Inr (Val u) :: (unit, int) outcome, u + 1)"
  let ?self = "\<lparr>calls = 1, interval = 10, clock = monotonic, raise_on_limit = False,
       last_reset = 0, num_calls = 1\<rparr> :: int RateLimit"
  let ?e = "\<lparr>readings = real, reads = 1, sleep_log = [], user = 1::int\<rparr>"
  let ?self' = "?self\<lparr>num_calls := 2\<rparr>"
  let ?e' = "?e\<lparr>reads := 2\<rparr>"
  have c: "clock ?self = monotonic" and r: "\<not> raise_on_limit ?self" by simp_all
  have a: "admit ?self ?e = (Skip, ?self', ?e')"
    by (simp add: admit_def monotonic_def)
  have n: "calls ?self < num_calls ?self'" by simp
  show ?thesis
    using sleep_and_retry_returns_None [OF c r a n, of ?f] by simp
qed

text \<open>
  C2. Whatever \<open>func\<close> the loop wraps and however its calls turn out, what the loop
  gives back to its caller is never a \<open>RateLimitException\<close>. Any other outcome of
  \<open>func\<close>, in particular any other exception, ends the loop at once and is the
  outcome of the loop, with the state exactly as \<open>func\<close> left it: nothing is caught,
  changed or retried. For the rate-limited wrapper this covers every admitted call:
  the outcome of the decorated function is the outcome of the loop.
\<close>

theorem RateLimitException_never_escapes:
  "(sleep_and_retry func l w = Some (r, l', w') \<longrightarrow> (\<forall>t. r \<noteq> Inl (RateLimitException t))) \<and>
   (func l w = (r1, l1, w1) \<and> (\<forall>t. r1 \<noteq> Inl (RateLimitException t)) \<longrightarrow>
      sleep_and_retry func l w = Some (r1, l1, w1)) \<and>
   (admit self e = (Proceed, self', e') \<and> op (user e') = (r2, u') \<and>
    (\<forall>t. r2 \<noteq> Inl (RateLimitException t)) \<longrightarrow>
      sleep_and_retry (RateLimit_wrapper op) self e = Some (r2, self', e'\<lparr>user := u'\<rparr>))"
proof (intro conjI impI allI)
  fix t
  assume "sleep_and_retry func l w = Some (r, l', w')"
  from sleep_and_retry_no_RateLimitException [OF this, of t]
  show "r \<noteq> Inl (RateLimitException t)" by simp
next
  assume "func l w = (r1, l1, w1) \<and> (\<forall>t. r1 \<noteq> Inl (RateLimitException t))"
  then show "sleep_and_retry func l w = Some (r1, l1, w1)"
    by (intro sleep_and_retry_return) simp_all
next
  assume a: "admit self e = (Proceed, self', e') \<and> op (user e') = (r2, u') \<and>
    (\<forall>t. r2 \<noteq> Inl (RateLimitException t))"
  then have "RateLimit_wrapper op self e = (r2, self', e'\<lparr>user := u'\<rparr>)"
    by (simp add: RateLimit_wrapper_def)
  then show "sleep_and_retry (RateLimit_wrapper op) self e = Some (r2, self', e'\<lparr>user := u'\<rparr>)"
    using a by (intro sleep_and_retry_return) simp_all
qed

theorem RateLimitException_never_escapes_witness:
  "sleep_and_retry (RateLimit_wrapper (\<lambda>u. (Inl (OpError 404) :: (int, int) outcome, u + 1)))
     \<lparr>calls = 2, interval = 10, clock = monotonic, raise_on_limit = True,
      last_reset = 0, num_calls = 0\<rparr>
     \<lparr>readings = real, reads = 0, sleep_log = [], user = 0::int\<rparr> =
     Some (Inl (OpError 404),
       \<lparr>calls = 2, interval = 10, clock = monotonic, raise_on_limit = True,
        last_reset = 0, num_calls = 1\<rparr>,
       \<lparr>readings = real, reads = 1, sleep_log = [], user = 1\<rparr>) \<and>
   sleep_and_retry (RateLimit_wrapper (\<lambda>u. (Inl (OpError 404) :: (int, int) outcome, u + 1)))
     \<lparr>calls = 2, interval = 10, clock = monotonic, raise_on_limit = True,
      last_reset = 0, num_calls = 2\<rparr>
     \<lparr>readings = (\<lambda>n. if n = 0 then 2 else 10), reads = 0, sleep_log = [], user = 2::int\<rparr> =
     Some (Inl (OpError 404),
       \<lparr>calls = 2, interval = 10, clock = monotonic, raise_on_limit = True,
        last_reset = 10, num_calls = 1\<rparr>,
       \<lparr>readings = (\<lambda>n. if n = 0 then 2 else 10), reads = 3, sleep_log = [8], user = 3\<rparr>) \<and>
   (\<forall>t. (Inl (OpError 404) :: (int, int) outcome) \<noteq> Inl (RateLimitException t))"
proof -
  let ?f = "\<lambda>u::int. (Inl (OpError 404) :: (int, int) outcome, u + 1)"
  let ?rd = "\<lambda>n::nat. if n = 0 then 2 else 10 :: real"
  let ?self = "\<lparr>calls = 2, interval = 10, clock = monotonic, raise_on_limit = True,
       last_reset = 0, num_calls = 0\<rparr> :: int RateLimit"
  let ?e = "\<lparr>readings = real, reads = 0, sleep_log = [], user = 0::int\<rparr>"
  let ?selfB = "?self\<lparr>num_calls := 2\<rparr>"
  let ?eB = "\<lparr>readings = ?rd, reads = 0, sleep_log = [], user = 2::int\<rparr>"
  let ?selfC = "?self\<lparr>num_calls := 3\<rparr>"
  let ?eC = "\<lparr>readings = ?rd, reads = 1, sleep_log = [8], user = 2::int\<rparr>"
  let ?selfD = "?self\<lparr>last_reset := 10, num_calls := 1\<rparr>"
  let ?eD = "\<lparr>readings = ?rd, reads = 3, sleep_log = [8], user = 2::int\<rparr>"
  have a: "admit ?self ?e = (Proceed, ?self\<lparr>num_calls := 1\<rparr>, ?e\<lparr>reads := 1\<rparr>)"
    by (simp add: admit_def monotonic_def)
  have o: "?f (user (?e\<lparr>reads := 1\<rparr>)) = (Inl (OpError 404), 1)" by simp
  have n: "\<forall>t. (Inl (OpError 404) :: (int, int) outcome) \<noteq> Inl (RateLimitException t)" by simp
  note first = RateLimitException_never_escapes [where self = ?self and e = ?e
      and self' = "?self\<lparr>num_calls := 1\<rparr>" and e' = "?e\<lparr>reads := 1\<rparr>" and op = ?f
      and ?r2.0 = "Inl (OpError 404)" and u' = 1, THEN conjunct2, THEN conjunct2]
  from first a o n have A: "sleep_and_retry (RateLimit_wrapper ?f) ?self ?e =
      Some (Inl (OpError 404), ?self\<lparr>num_calls := 1\<rparr>, ?e\<lparr>reads := 1, user := 1\<rparr>)"
    by simp
  have w1: "RateLimit_wrapper ?f ?selfB ?eB =
      (Inl (RateLimitException 8), ?selfC, ?eC\<lparr>sleep_log := []\<rparr>)"
    by (simp add: RateLimit_wrapper_def admit_def monotonic_def)
  have aC: "admit ?selfC ?eC = (Proceed, ?selfD, ?eD)"
    by (simp add: admit_def monotonic_def eval_nat_numeral)
  have oC: "?f (user ?eD) = (Inl (OpError 404), 3)" by simp
  note second = RateLimitException_never_escapes [where self = ?selfC and e = ?eC
      and self' = ?selfD and e' = ?eD and op = ?f
      and ?r2.0 = "Inl (OpError 404)" and u' = 3, THEN conjunct2, THEN conjunct2]
  from second aC oC n have "sleep_and_retry (RateLimit_wrapper ?f) ?selfC ?eC =
      Some (Inl (OpError 404), ?selfD, ?eD\<lparr>user := 3\<rparr>)"
    by simp
  with sleep_and_retry_reject [where func = "RateLimit_wrapper ?f", OF w1]
  have B: "sleep_and_retry (RateLimit_wrapper ?f) ?selfB ?eB =
      Some (Inl (OpError 404), ?selfD, ?eD\<lparr>user := 3\<rparr>)"
    by simp
  note third = RateLimitException_never_escapes [where func = "RateLimit_wrapper ?f"
      and l = ?selfB and w = ?eB and r = "Inl (OpError 404)" and l' = ?selfD
      and w' = "?eD\<lparr>user := 3\<rparr>", THEN conjunct1]
  from third B have C: "\<forall>t. (Inl (OpError 404) :: (int, int) outcome) \<noteq> Inl (RateLimitException t)"
    by blast
  from A B C show ?thesis by simp
qed

text \<open>
  C9. A limiter constructed with \<open>calls = 0\<close> that raises on the limit rejects
  every call, whatever the clock reads: the wrapper raises \<open>RateLimitException\<close>
  and the decorated function does not run. A call that reads the clock once the
  window has elapsed does reset the window (\<open>last_reset\<close> is the second clock
  reading and \<open>num_calls\<close> ends at \<open>1\<close>, that is \<open>0\<close> and the increment), yet it
  raises with the \<open>period_remaining\<close> computed before the reset, which is \<open>\<le> 0\<close>;
  \<open>sleep_and_retry\<close> around it passes this value to \<open>time.sleep\<close>.
\<close>

theorem zero_calls_rejects_every_call:
  assumes "RateLimit_init 0 d True e0 = (self, w)"
    and "after_calls k func self w = (self_k, w_k)"
  shows "fst (RateLimit_wrapper func self_k w_k) =
           Inl (RateLimitException (d - (readings w_k (reads w_k) - last_reset self_k))) \<and>
         user (snd (snd (RateLimit_wrapper func self_k w_k))) = user w_k \<and>
         (d \<le> readings w_k (reads w_k) - last_reset self_k \<longrightarrow>
            d - (readings w_k (reads w_k) - last_reset self_k) \<le> 0 \<and>
            snd (RateLimit_wrapper func self_k w_k) =
              (self_k\<lparr>num_calls := 1, last_reset := readings w_k (Suc (reads w_k))\<rparr>,
               w_k\<lparr>reads := Suc (Suc (reads w_k))\<rparr>) \<and>
            sleep_and_retry (RateLimit_wrapper func) self_k w_k =
              (if d - (readings w_k (reads w_k) - last_reset self_k) < 0
               then Some (Inl ValueError,
                 self_k\<lparr>num_calls := 1, last_reset := readings w_k (Suc (reads w_k))\<rparr>,
                 w_k\<lparr>reads := Suc (Suc (reads w_k)),
                     sleep_log := sleep_log w_k @
                       [d - (readings w_k (reads w_k) - last_reset self_k)]\<rparr>)
               else sleep_and_retry (RateLimit_wrapper func)
                 (self_k\<lparr>num_calls := 1, last_reset := readings w_k (Suc (reads w_k))\<rparr>)
                 (w_k\<lparr>reads := Suc (Suc (reads w_k)),
                      sleep_log := sleep_log w_k @
                        [d - (readings w_k (reads w_k) - last_reset self_k)]\<rparr>)))"
proof -
  note fresh = RateLimit_init_fresh [OF assms(1)]
  note cfg = after_calls_config [of k func self w]
  have c: "clock self_k = monotonic" and z: "calls self_k = 0" and i: "interval self_k = d"
    and r: "raise_on_limit self_k"
    using cfg assms(2) fresh by simp_all
  have n: "0 \<le> num_calls self_k"
    using after_calls_num_calls_nonneg [of self k func w] assms(2) fresh by simp
  show ?thesis
  proof (cases "readings w_k (reads w_k) - last_reset self_k < interval self_k")
    case True
    note w = RateLimit_wrapper_in_window [OF c True, of func]
    show ?thesis unfolding w using True z i r n by simp
  next
    case False
    then have el: "interval self_k \<le> readings w_k (reads w_k) - last_reset self_k" by simp
    note w = RateLimit_wrapper_elapsed [OF c el, of func]
    have w': "RateLimit_wrapper func self_k w_k =
        (Inl (RateLimitException (d - (readings w_k (reads w_k) - last_reset self_k))),
         self_k\<lparr>num_calls := 1, last_reset := readings w_k (Suc (reads w_k))\<rparr>,
         w_k\<lparr>reads := Suc (Suc (reads w_k))\<rparr>)"
      unfolding w using z i r by simp
    show ?thesis
      unfolding sleep_and_retry_reject [of "RateLimit_wrapper func" self_k w_k, OF w']
      unfolding w' using el i by simp
  qed
qed

theorem zero_calls_rejects_every_call_witness:
  "RateLimit_init 0 10 True \<lparr>readings = (\<lambda>n. 11 * real n), reads = 0, sleep_log = [], user = 0::int\<rparr> =
     (\<lparr>calls = 0, interval = 10, clock = monotonic, raise_on_limit = True,
       last_reset = 0, num_calls = 0\<rparr>,
      \<lparr>readings = (\<lambda>n. 11 * real n), reads = 1, sleep_log = [], user = 0\<rparr>) \<and>
   RateLimit_wrapper (\<lambda>u. (Inr (Val u) :: (unit, int) outcome, u + 1))
     \<lparr>calls = 0, interval = 10, clock = monotonic, raise_on_limit = True,
      last_reset = 0, num_calls = 0\<rparr>
     \<lparr>readings = (\<lambda>n. 11 * real n), reads = 1, sleep_log = [], user = 0::int\<rparr> =
     (Inl (RateLimitException (- 1)),
      \<lparr>calls = 0, interval = 10, clock = monotonic, raise_on_limit = True,
       last_reset = 22, num_calls = 1\<rparr>,
      \<lparr>readings = (\<lambda>n. 11 * real n), reads = 3, sleep_log = [], user = 0\<rparr>) \<and>
   sleep_and_retry (RateLimit_wrapper (\<lambda>u. (Inr (Val u) :: (unit, int) outcome, u + 1)))
     \<lparr>calls = 0, interval = 10, clock = monotonic, raise_on_limit = True,
      last_reset = 0, num_calls = 0\<rparr>
     \<lparr>readings = (\<lambda>n. 11 * real n), reads = 1, sleep_log = [], user = 0::int\<rparr> =
     Some (Inl ValueError,
      \<lparr>calls = 0, interval = 10, clock = monotonic, raise_on_limit = True,
       last_reset = 22, num_calls = 1\<rparr>,
      \<lparr>readings = (\<lambda>n. 11 * real n), reads = 3, sleep_log = [- 1], user = 0\<rparr>)"
proof -
  let ?f = "\<lambda>u::int. (Inr (Val u) :: (unit, int) outcome, u + 1)"
  let ?init = "\<lparr>readings = (\<lambda>n. 11 * real n), reads = 0, sleep_log = [], user = 0::int\<rparr>"
  let ?self = "\<lparr>calls = 0, interval = 10, clock = monotonic, raise_on_limit = True,
       last_reset = 0, num_calls = 0\<rparr> :: int RateLimit"
  let ?e = "\<lparr>readings = (\<lambda>n. 11 * real n), reads = 1, sleep_log = [], user = 0::int\<rparr>"
  have i: "RateLimit_init 0 10 True ?init = (?self, ?e)"
    by (simp add: RateLimit_init_def monotonic_def)
  have a: "after_calls 0 ?f ?self ?e = (?self, ?e)" by simp
  have w: "RateLimit_wrapper ?f ?self ?e =
     (fst (RateLimit_wrapper ?f ?self ?e), snd (RateLimit_wrapper ?f ?self ?e))"
    by simp
  note t = zero_calls_rejects_every_call [OF i a]
  show ?thesis
    using i t by (simp add: prod_eq_iff eval_nat_numeral)
qed




end
